theory Spec2Isabelle
  imports Complex_Main "HOL-Library.Sublist"
begin

section \<open>Strings\<close>

text \<open>
  Python strings are sequences of code points. They are modelled as \<open>string\<close>, each
  \<open>char\<close> being read as the code point of the same number (U+0000 to U+00FF). On this
  range the character classes below are the ones Python uses: \<open>str.lower\<close>, the
  regular-expression classes \<open>\s\<close> and \<open>\w\<close> of a \<open>str\<close> pattern, and the ASCII
  ranges \<open>[A-Z]\<close> and \<open>[a-z]\<close>.
\<close>

definition code :: "char \<Rightarrow> nat" where
  "code c = of_char c"

definition lower_char :: "char \<Rightarrow> char" where
  "lower_char c =
     (if (65 \<le> code c \<and> code c \<le> 90) \<or> (192 \<le> code c \<and> code c \<le> 214)
          \<or> (216 \<le> code c \<and> code c \<le> 222)
      then char_of (code c + 32) else c)"

definition lower :: "string \<Rightarrow> string" where
  \<comment> \<open>\<open>text.lower()\<close>\<close>
  "lower s = map lower_char s"

definition is_space :: "char \<Rightarrow> bool" where
  \<comment> \<open>\<open>\s\<close>, and the separators of \<open>str.split()\<close>\<close>
  "is_space c \<longleftrightarrow> code c \<in> {9, 10, 11, 12, 13, 28, 29, 30, 31, 32, 133, 160}"

definition is_upper_az :: "char \<Rightarrow> bool" where
  \<comment> \<open>\<open>[A-Z]\<close>\<close>
  "is_upper_az c \<longleftrightarrow> 65 \<le> code c \<and> code c \<le> 90"

definition is_lower_az :: "char \<Rightarrow> bool" where
  \<comment> \<open>\<open>[a-z]\<close>\<close>
  "is_lower_az c \<longleftrightarrow> 97 \<le> code c \<and> code c \<le> 122"

definition is_word :: "char \<Rightarrow> bool" where
  \<comment> \<open>\<open>\w\<close>: alphanumeric or underscore\<close>
  "is_word c \<longleftrightarrow>
     (48 \<le> code c \<and> code c \<le> 57) \<or> (65 \<le> code c \<and> code c \<le> 90) \<or> code c = 95
     \<or> (97 \<le> code c \<and> code c \<le> 122)
     \<or> code c \<in> {170, 178, 179, 181, 185, 186, 188, 189, 190}
     \<or> (192 \<le> code c \<and> code c \<le> 214) \<or> (216 \<le> code c \<and> code c \<le> 246)
     \<or> 248 \<le> code c"

definition quote :: char where
  "quote = CHR 0x22"

subsection \<open>\<open>re.findall(r'"([^"]*)"', text)\<close>\<close>

text \<open>
  At an opening quote the group \<open>[^"]*\<close> takes every character up to the next quote,
  which closes the match; the scan resumes after it. Without a closing quote there is no
  match at this position and the scan moves one character on. The result lists the
  captured groups.
\<close>

function findall_quoted :: "string \<Rightarrow> string list" where
  "findall_quoted [] = []"
| "findall_quoted (c # cs) =
     (if c = quote then
        (case dropWhile (\<lambda>d. d \<noteq> quote) cs of
           [] \<Rightarrow> findall_quoted cs
         | _ # rest \<Rightarrow> takeWhile (\<lambda>d. d \<noteq> quote) cs # findall_quoted rest)
      else findall_quoted cs)"
  by pat_completeness auto
termination
proof (relation "measure length")
  fix c :: char and cs x21 x22
  assume "dropWhile (\<lambda>d. d \<noteq> quote) cs = x21 # x22"
  then have "length (x21 # x22) \<le> length cs"
    by (metis length_dropWhile_le)
  then show "(x22, c # cs) \<in> measure length" by simp
qed auto

subsection \<open>\<open>re.findall(r'\b[A-Z][a-z]+(?:\s+[A-Z][a-z]+)*\b', text)\<close>\<close>

text \<open>
  \<open>cap_word\<close> is \<open>[A-Z][a-z]+\<close> at the head of the string, with the longest run of
  lower-case letters, and returns the word and the rest. A shorter run is never part of
  a match: it would be followed by a lower-case letter, where neither \<open>\s\<close> nor \<open>\b\<close>
  matches.
\<close>

definition cap_word :: "string \<Rightarrow> (string \<times> string) option" where
  "cap_word s =
     (case s of
        [] \<Rightarrow> None
      | c # cs \<Rightarrow>
          if is_upper_az c \<and> takeWhile is_lower_az cs \<noteq> []
          then Some (c # takeWhile is_lower_az cs, dropWhile is_lower_az cs)
          else None)"

text \<open>
  \<open>cap_group\<close> is one round of the group \<open>\s+[A-Z][a-z]+\<close>; the run of white space is
  the longest one, since a shorter run is followed by white space and not by \<open>[A-Z]\<close>.
\<close>

definition cap_group :: "string \<Rightarrow> (string \<times> string) option" where
  "cap_group s =
     (if takeWhile is_space s = [] then None
      else case cap_word (dropWhile is_space s) of
             None \<Rightarrow> None
           | Some (w, rest) \<Rightarrow> Some (takeWhile is_space s @ w, rest))"

text \<open>
  \<open>boundary_after s\<close> is the final \<open>\b\<close>, tested after a letter and before \<open>s\<close>;
  \<open>boundary_before prev\<close> is the initial \<open>\b\<close>, tested before a capital letter, \<open>prev\<close>
  being the character before it, if any.
\<close>

definition boundary_after :: "string \<Rightarrow> bool" where
  "boundary_after s = (case s of [] \<Rightarrow> True | c # _ \<Rightarrow> \<not> is_word c)"

definition boundary_before :: "char option \<Rightarrow> bool" where
  "boundary_before prev = (case prev of None \<Rightarrow> True | Some p \<Rightarrow> \<not> is_word p)"

lemma cap_word_shorter:
  "cap_word s = Some (w, rest) \<Longrightarrow> length rest < length s \<and> w \<noteq> []"
  by (auto simp: cap_word_def less_Suc_eq_le length_dropWhile_le
      split: list.splits if_splits)

lemma cap_group_shorter:
  "cap_group s = Some (g, rest) \<Longrightarrow> length rest < length s \<and> g \<noteq> []"
proof -
  assume a: "cap_group s = Some (g, rest)"
  then obtain w where w: "cap_word (dropWhile is_space s) = Some (w, rest)"
    and g: "g = takeWhile is_space s @ w"
    by (auto simp: cap_group_def split: if_splits option.splits)
  have "length rest < length (dropWhile is_space s)"
    using cap_word_shorter [OF w] by simp
  also have "\<dots> \<le> length s" by (rule length_dropWhile_le)
  finally show ?thesis using g cap_word_shorter [OF w] by simp
qed

text \<open>
  \<open>cap_tail s\<close> is the rest of the pattern, \<open>(?:\s+[A-Z][a-z]+)*\b\<close>, after a word and
  before \<open>s\<close>. The star is greedy: it tries one more round of the group first, and
  falls back to no further round, where the final \<open>\b\<close> must hold.
\<close>

function cap_tail :: "string \<Rightarrow> (string \<times> string) option" where
  "cap_tail s =
     (case cap_group s of
        Some (g, rest) \<Rightarrow>
          (case cap_tail rest of
             Some (t, rest') \<Rightarrow> Some (g @ t, rest')
           | None \<Rightarrow> if boundary_after s then Some ([], s) else None)
      | None \<Rightarrow> if boundary_after s then Some ([], s) else None)"
  by pat_completeness auto
termination
  by (relation "measure length") (auto dest: cap_group_shorter)

declare cap_tail.simps [simp del]

definition cap_match :: "string \<Rightarrow> (string \<times> string) option" where
  \<comment> \<open>the pattern after its initial \<open>\b\<close>: the match and the rest of the string\<close>
  "cap_match s =
     (case cap_word s of
        None \<Rightarrow> None
      | Some (w, rest) \<Rightarrow>
          (case cap_tail rest of
             None \<Rightarrow> None
           | Some (t, rest') \<Rightarrow> Some (w @ t, rest')))"

lemma cap_tail_length: "cap_tail s = Some (t, rest) \<Longrightarrow> length rest \<le> length s"
proof (induction s arbitrary: t rest rule: cap_tail.induct)
  case (1 s)
  show ?case
  proof (cases "cap_group s")
    case None
    with "1.prems" show ?thesis
      by (subst (asm) cap_tail.simps) (simp split: if_splits)
  next
    case (Some p)
    obtain g r where p: "p = (g, r)" by (cases p)
    have gs: "cap_group s = Some (g, r)" using Some p by simp
    have r: "length r < length s"
      using cap_group_shorter gs by blast
    show ?thesis
    proof (cases "cap_tail r")
      case None
      with "1.prems" gs show ?thesis
        by (subst (asm) cap_tail.simps) (simp split: if_splits)
    next
      case (Some q)
      obtain t' r' where q: "q = (t', r')" by (cases q)
      have tr: "cap_tail r = Some (t', r')" using Some q by simp
      have "rest = r'"
        using "1.prems" gs tr
        by (subst (asm) cap_tail.simps) simp
      moreover have "length r' \<le> length r"
        using "1.IH" [OF gs refl tr] .
      ultimately show ?thesis using r by simp
    qed
  qed
qed

lemma cap_match_shorter: "cap_match s = Some (m, rest) \<Longrightarrow> length rest < length s"
  by (auto simp: cap_match_def split: option.splits
      dest!: cap_word_shorter cap_tail_length)

text \<open>
  The scan of \<open>findall\<close>: \<open>prev\<close> is the character before the current position. After a
  match the scan resumes at its end.
\<close>

function findall_capitalized_from :: "char option \<Rightarrow> string \<Rightarrow> string list" where
  "findall_capitalized_from prev [] = []"
| "findall_capitalized_from prev (c # cs) =
     (case (if boundary_before prev then cap_match (c # cs) else None) of
        Some (m, rest) \<Rightarrow> m # findall_capitalized_from (Some (last m)) rest
      | None \<Rightarrow> findall_capitalized_from (Some c) cs)"
  by pat_completeness auto
termination
  by (relation "measure (\<lambda>(prev, s). length s)")
    (auto split: if_splits dest: cap_match_shorter)

definition findall_capitalized :: "string \<Rightarrow> string list" where
  "findall_capitalized s = findall_capitalized_from None s"

section \<open>The similarity scorer (step_matcher.py)\<close>

text \<open>
  The score is a Python float. It is modelled as the real number that the formula denotes;
  rounding is not modelled. Python's \<open>set\<close> of a list is the set of its elements and
  \<open>len\<close> of a set is its cardinality; \<open>w in s\<close> on strings is \<open>sublist w s\<close>.
\<close>

definition ui_elements_vocab :: "string list" where
  "ui_elements_vocab =
     [''search'', ''icon'', ''button'', ''input'', ''field'', ''filter'', ''menu'', ''link'',
      ''bar'']"

definition extract_objects :: "string \<Rightarrow> string list" where
  "extract_objects text =
     filter (\<lambda>element. sublist element (lower text)) ui_elements_vocab
     @ map lower (findall_quoted text)
     @ map lower (findall_capitalized text)"

definition action_words :: "string list" where
  "action_words =
     [''click'', ''enter'', ''type'', ''select'', ''navigate'', ''filter'', ''search'',
      ''submit'', ''open'']"

definition set_match :: "string list \<Rightarrow> string list \<Rightarrow> real" where
  \<comment> \<open>\<open>len(set(a) & set(b)) / max(len(set(a) | set(b)), 1)\<close>\<close>
  "set_match a b =
     real (card (set a \<inter> set b)) / real (max (card (set a \<union> set b)) 1)"

definition semantic_match :: "string \<Rightarrow> string \<Rightarrow> real" where
  "semantic_match planned_action observed_action =
     (let planned_lower = lower planned_action;
          observed_lower = lower observed_action;
          planned_actions = filter (\<lambda>word. sublist word planned_lower) action_words;
          observed_actions = filter (\<lambda>word. sublist word observed_lower) action_words;
          planned_objects = extract_objects planned_action;
          observed_objects = extract_objects observed_action;
          action_match = set_match planned_actions observed_actions;
          object_match = set_match planned_objects observed_objects
      in action_match * (6 / 10) + object_match * (4 / 10))"

section \<open>The step matcher (step_matcher.py)\<close>

text \<open>
  The dictionaries of the source become records. A key that a dictionary may lack is a
  field of \<open>option\<close> type, \<open>None\<close> standing for the missing key; \<open>d.get(key, default)\<close>
  is \<open>get_or dflt (key d)\<close>. Python floats are modelled as real numbers.
\<close>

definition get_or :: "'a \<Rightarrow> 'a option \<Rightarrow> 'a" where
  "get_or dflt v = (case v of None \<Rightarrow> dflt | Some x \<Rightarrow> x)"

record planned_step =
  next_step_summary :: "string option"
  next_step :: "string option"

record timeline_item =
  timestamp :: "real option"
  timestamp_formatted :: "string option"
  actions :: "string list option"
  ui_elements :: "string list option"
  text_content :: "string list option"
  description :: "string option"
  frame_number :: "int option"

text \<open>The dictionary stored as \<open>best_match\<close> and appended to \<open>matches\<close>.\<close>

record candidate =
  cand_timeline_item :: timeline_item
  cand_observed_action :: string
  cand_score :: real
  cand_timestamp :: real
  cand_timestamp_formatted :: string

definition candidate :: "timeline_item \<Rightarrow> string \<Rightarrow> real \<Rightarrow> candidate" where
  "candidate item observed score =
     \<lparr>cand_timeline_item = item,
      cand_observed_action = observed,
      cand_score = score,
      cand_timestamp = get_or 0 (timestamp item),
      cand_timestamp_formatted = get_or ''00:00'' (timestamp_formatted item)\<rparr>"

record match_result =
  res_planned_step :: planned_step
  planned_action :: string
  best_match :: "candidate option"
  best_score :: real
  all_matches :: "candidate list"
  is_matched :: bool
  result :: string

text \<open>The three local variables that each loop of \<open>match_step_with_timeline\<close> updates.\<close>

record scan =
  cur_best_match :: "candidate option"
  cur_best_score :: real
  cur_matches :: "candidate list"

definition planned_action_of :: "planned_step \<Rightarrow> string" where
  \<comment> \<open>\<open>planned_step.get("next_step_summary", "") or planned_step.get("next_step", "")\<close>\<close>
  "planned_action_of step =
     (if get_or [] (next_step_summary step) \<noteq> [] then get_or [] (next_step_summary step)
      else get_or [] (next_step step))"

definition check_action :: "string \<Rightarrow> real \<Rightarrow> timeline_item \<Rightarrow> scan \<Rightarrow> string \<Rightarrow> scan" where
  \<comment> \<open>the body of the loop over \<open>timeline_item.get("actions", [])\<close>\<close>
  "check_action planned threshold item st observed_action =
     (let score = semantic_match planned observed_action;
          st1 = (if score > cur_best_score st
                 then st\<lparr>cur_best_score := score,
                         cur_best_match := Some (candidate item observed_action score)\<rparr>
                 else st)
      in if score \<ge> threshold
         then st1\<lparr>cur_matches := cur_matches st1 @ [candidate item observed_action score]\<rparr>
         else st1)"

definition check_element :: "string \<Rightarrow> timeline_item \<Rightarrow> scan \<Rightarrow> string \<Rightarrow> scan" where
  \<comment> \<open>the body of the loop over \<open>ui_elements + text_content\<close>\<close>
  "check_element planned item st element =
     (let score = semantic_match planned element
      in if score > cur_best_score st
         then st\<lparr>cur_best_score := score,
                 cur_best_match := Some (candidate item element score)\<rparr>
         else st)"

definition check_item :: "string \<Rightarrow> real \<Rightarrow> scan \<Rightarrow> timeline_item \<Rightarrow> scan" where
  \<comment> \<open>the body of the loop over \<open>timeline\<close>\<close>
  "check_item planned threshold st item =
     foldl (check_element planned item)
       (foldl (check_action planned threshold item) st (get_or [] (actions item)))
       (get_or [] (ui_elements item) @ get_or [] (text_content item))"

definition scan_timeline :: "string \<Rightarrow> real \<Rightarrow> timeline_item list \<Rightarrow> scan" where
  "scan_timeline planned threshold timeline =
     foldl (check_item planned threshold)
       \<lparr>cur_best_match = None, cur_best_score = 0, cur_matches = []\<rparr> timeline"

definition match_step_with_timeline ::
  "planned_step \<Rightarrow> timeline_item list \<Rightarrow> real \<Rightarrow> match_result" where
  "match_step_with_timeline step timeline threshold =
     (let planned = planned_action_of step;
          st = scan_timeline planned threshold timeline
      in \<lparr>res_planned_step = step,
          planned_action = planned,
          best_match = cur_best_match st,
          best_score = cur_best_score st,
          all_matches = cur_matches st,
          is_matched = (cur_best_score st \<ge> threshold),
          result = (if cur_best_score st \<ge> threshold then ''observed'' else ''deviation'')\<rparr>)"

definition match_all_steps ::
  "planned_step list \<Rightarrow> timeline_item list \<Rightarrow> real \<Rightarrow> match_result list" where
  "match_all_steps planned_steps timeline threshold =
     foldl (\<lambda>results step. results @ [match_step_with_timeline step timeline threshold])
       [] planned_steps"

definition categorize_deviation :: "match_result \<Rightarrow> string" where
  "categorize_deviation match_result =
     (if is_matched match_result then ''observed''
      else if best_score match_result = 0 then ''skipped''
      else if best_score match_result < 3 / 10 then ''not_visible''
      else ''altered'')"

subsection \<open>The matcher over the values that the scorer returns\<close>

text \<open>
  A call of \<open>semantic_match\<close> returns a double, the rounded value of the formula, and the
  test \<open>score > best_score\<close> compares doubles. Two phrases whose exact scores are equal
  can receive different doubles: \<open>0.5 * 0.6\<close> is \<open>0.3\<close> and \<open>0.75 * 0.4\<close> is
  \<open>0.30000000000000004\<close>. Which candidate replaces which depends on the values that the
  calls return, so the matcher is given once more with these values as a parameter:
  \<open>score planned observed\<close> is the value of the call
  \<open>semantic_match(planned, observed)\<close>, a double read as the real number it denotes.
  Apart from this parameter the definitions are the ones above, which they yield for the
  exact scorer (lemma \<open>match_step_with_exact\<close>).
\<close>

definition check_action_with ::
  "(string \<Rightarrow> string \<Rightarrow> real) \<Rightarrow> string \<Rightarrow> real \<Rightarrow> timeline_item \<Rightarrow> scan \<Rightarrow> string \<Rightarrow> scan" where
  "check_action_with score planned threshold item st observed_action =
     (let s = score planned observed_action;
          st1 = (if s > cur_best_score st
                 then st\<lparr>cur_best_score := s,
                         cur_best_match := Some (candidate item observed_action s)\<rparr>
                 else st)
      in if s \<ge> threshold
         then st1\<lparr>cur_matches := cur_matches st1 @ [candidate item observed_action s]\<rparr>
         else st1)"

definition check_element_with ::
  "(string \<Rightarrow> string \<Rightarrow> real) \<Rightarrow> string \<Rightarrow> timeline_item \<Rightarrow> scan \<Rightarrow> string \<Rightarrow> scan" where
  "check_element_with score planned item st element =
     (let s = score planned element
      in if s > cur_best_score st
         then st\<lparr>cur_best_score := s,
                 cur_best_match := Some (candidate item element s)\<rparr>
         else st)"

definition check_item_with ::
  "(string \<Rightarrow> string \<Rightarrow> real) \<Rightarrow> string \<Rightarrow> real \<Rightarrow> scan \<Rightarrow> timeline_item \<Rightarrow> scan" where
  "check_item_with score planned threshold st item =
     foldl (check_element_with score planned item)
       (foldl (check_action_with score planned threshold item) st (get_or [] (actions item)))
       (get_or [] (ui_elements item) @ get_or [] (text_content item))"

definition scan_timeline_with ::
  "(string \<Rightarrow> string \<Rightarrow> real) \<Rightarrow> string \<Rightarrow> real \<Rightarrow> timeline_item list \<Rightarrow> scan" where
  "scan_timeline_with score planned threshold timeline =
     foldl (check_item_with score planned threshold)
       \<lparr>cur_best_match = None, cur_best_score = 0, cur_matches = []\<rparr> timeline"

definition match_step_with ::
  "(string \<Rightarrow> string \<Rightarrow> real) \<Rightarrow> planned_step \<Rightarrow> timeline_item list \<Rightarrow> real \<Rightarrow> match_result" where
  "match_step_with score step timeline threshold =
     (let planned = planned_action_of step;
          st = scan_timeline_with score planned threshold timeline
      in \<lparr>res_planned_step = step,
          planned_action = planned,
          best_match = cur_best_match st,
          best_score = cur_best_score st,
          all_matches = cur_matches st,
          is_matched = (cur_best_score st \<ge> threshold),
          result = (if cur_best_score st \<ge> threshold then ''observed'' else ''deviation'')\<rparr>)"

section \<open>The timeline builder (action_detector.py)\<close>

record analysis =
  an_description :: "string option"

record frame_data =
  fr_timestamp :: "real option"
  fr_timestamp_formatted :: "string option"
  detected_actions :: "string list option"
  fr_ui_elements :: "string list option"
  fr_text_content :: "string list option"
  fr_analysis :: "analysis option"
  fr_frame_number :: "int option"

definition add_frame :: "timeline_item list \<Rightarrow> frame_data \<Rightarrow> timeline_item list" where
  \<comment> \<open>the body of the loop of \<open>build_action_timeline\<close>; a non-empty list is true\<close>
  "add_frame timeline fd =
     (let ts = get_or 0 (fr_timestamp fd);
          ts_formatted = get_or ''00:00'' (fr_timestamp_formatted fd);
          acts = get_or [] (detected_actions fd);
          uis = get_or [] (fr_ui_elements fd);
          texts = get_or [] (fr_text_content fd);
          descr = get_or [] (an_description (get_or \<lparr>an_description = None\<rparr> (fr_analysis fd)))
      in if acts \<noteq> [] \<or> uis \<noteq> [] \<or> texts \<noteq> []
         then timeline @
           [\<lparr>timestamp = Some ts,
             timestamp_formatted = Some ts_formatted,
             actions = Some acts,
             ui_elements = Some uis,
             text_content = Some texts,
             description = Some descr,
             frame_number = Some (get_or 0 (fr_frame_number fd))\<rparr>]
         else timeline)"

definition build_action_timeline :: "frame_data list \<Rightarrow> timeline_item list" where
  "build_action_timeline analyzed_frames = foldl add_frame [] analyzed_frames"

section \<open>Outcomes of calls\<close>

text \<open>
  A call returns a value or raises an exception. \<open>ConfigurationError\<close> and \<open>InputError\<close>
  are the two errors the specification names. The functions above contain no \<open>raise\<close>
  statement, check neither the threshold nor the presence of a key, and apply only
  operations that are defined on every value of the types above (\<open>dict.get\<close> with a
  default, comparison, list concatenation, the total scorer), so each call returns.
\<close>

datatype error = ConfigurationError | InputError

definition match_step_with_timeline_outcome ::
  "planned_step \<Rightarrow> timeline_item list \<Rightarrow> real \<Rightarrow> error + match_result" where
  "match_step_with_timeline_outcome step timeline threshold =
     Inr (match_step_with_timeline step timeline threshold)"

definition match_all_steps_outcome ::
  "planned_step list \<Rightarrow> timeline_item list \<Rightarrow> real \<Rightarrow> error + match_result list" where
  "match_all_steps_outcome planned_steps timeline threshold =
     Inr (match_all_steps planned_steps timeline threshold)"

definition build_action_timeline_outcome :: "frame_data list \<Rightarrow> error + timeline_item list" where
  "build_action_timeline_outcome analyzed_frames = Inr (build_action_timeline analyzed_frames)"

section \<open>Auxiliary notions and sample inputs\<close>

text \<open>
  \<open>best_consistent\<close> is the loop invariant that links the two variables \<open>best_match\<close>
  and \<open>best_score\<close>.
\<close>

definition best_consistent :: "scan \<Rightarrow> bool" where
  "best_consistent st \<longleftrightarrow>
     0 \<le> cur_best_score st \<and> cur_best_score st \<le> 1
     \<and> (cur_best_match st = None \<longleftrightarrow> cur_best_score st = 0)"

subsection \<open>The score as the specification states it\<close>

text \<open>
  These definitions follow the words of the specification, for comparison with
  \<open>semantic_match\<close>: the text is lower-cased and split at white space (\<open>split\<close> is
  Python's \<open>str.split()\<close>), the action tokens are the tokens that belong to the
  vocabulary, and \<open>overlap\<close> is the ratio of the specification. The vocabulary is the
  one of the source, and the object tokens are those of \<open>extract_objects\<close>.
\<close>

function split :: "string \<Rightarrow> string list" where
  "split [] = []"
| "split (c # cs) =
     (if is_space c then split cs
      else (c # takeWhile (\<lambda>d. \<not> is_space d) cs) # split (dropWhile (\<lambda>d. \<not> is_space d) cs))"
  by pat_completeness auto
termination
  by (relation "measure length") (auto simp: less_Suc_eq_le length_dropWhile_le)

definition overlap :: "string set \<Rightarrow> string set \<Rightarrow> real" where
  "overlap A B = real (card (A \<inter> B)) / real (max (card (A \<union> B)) 1)"

definition spec_action_tokens :: "string \<Rightarrow> string set" where
  "spec_action_tokens text = set (filter (\<lambda>t. t \<in> set action_words) (split (lower text)))"

definition spec_score :: "string \<Rightarrow> string \<Rightarrow> real" where
  "spec_score planned observed =
     6 / 10 * overlap (spec_action_tokens planned) (spec_action_tokens observed)
     + 4 / 10 * overlap (set (extract_objects planned)) (set (extract_objects observed))"

subsection \<open>The scan order of the step matcher\<close>

text \<open>
  \<open>phrases\<close> lists the phrases of one timeline entry in the order in which
  \<open>match_step_with_timeline\<close> scores them: actions, then user-interface elements, then
  text snippets. \<open>scanned_pairs\<close> lists the (entry, phrase) pairs of a timeline in scan
  order. \<open>pair_score\<close> is the score of a pair against the step, and \<open>pair_candidate\<close>
  the dictionary that the matcher records for it, for the values \<open>score\<close> that the scorer
  returns. \<open>event_time\<close> is the time stamp that the matcher reads from an entry.
  \<open>best_step\<close> is the update of \<open>best_match\<close> and \<open>best_score\<close> that the loop over
  actions and the loop over elements both perform.
\<close>

definition phrases :: "timeline_item \<Rightarrow> string list" where
  "phrases item =
     get_or [] (actions item) @ get_or [] (ui_elements item) @ get_or [] (text_content item)"

definition scanned_pairs :: "timeline_item list \<Rightarrow> (timeline_item \<times> string) list" where
  "scanned_pairs timeline = concat (map (\<lambda>item. map (Pair item) (phrases item)) timeline)"

definition pair_score ::
  "(string \<Rightarrow> string \<Rightarrow> real) \<Rightarrow> planned_step \<Rightarrow> timeline_item \<times> string \<Rightarrow> real" where
  "pair_score score step pair = score (planned_action_of step) (snd pair)"

definition pair_candidate ::
  "(string \<Rightarrow> string \<Rightarrow> real) \<Rightarrow> planned_step \<Rightarrow> timeline_item \<times> string \<Rightarrow> candidate" where
  "pair_candidate score step pair = candidate (fst pair) (snd pair) (pair_score score step pair)"

definition event_time :: "timeline_item \<Rightarrow> real" where
  "event_time item = get_or 0 (timestamp item)"

definition best_of :: "scan \<Rightarrow> candidate option \<times> real" where
  "best_of st = (cur_best_match st, cur_best_score st)"

definition best_step ::
  "(string \<Rightarrow> real) \<Rightarrow> candidate option \<times> real \<Rightarrow> timeline_item \<times> string \<Rightarrow> candidate option \<times> real" where
  "best_step f b pair =
     (if f (snd pair) > snd b
      then (Some (candidate (fst pair) (snd pair) (f (snd pair))), f (snd pair))
      else b)"

subsection \<open>Sample inputs\<close>

definition step_click :: planned_step where
  "step_click = \<lparr>next_step_summary = Some ''click'', next_step = None\<rparr>"

definition item_at :: "real \<Rightarrow> string \<Rightarrow> string list \<Rightarrow> string list \<Rightarrow> timeline_item" where
  \<comment> \<open>a timeline entry with a time stamp, actions and user-interface elements\<close>
  "item_at t label acts uis =
     \<lparr>timestamp = Some t, timestamp_formatted = Some label, actions = Some acts,
      ui_elements = Some uis, text_content = None, description = None,
      frame_number = None\<rparr>"

definition frame_no_timestamp :: frame_data where
  "frame_no_timestamp =
     \<lparr>fr_timestamp = None, fr_timestamp_formatted = None,
      detected_actions = Some [''click button''], fr_ui_elements = None,
      fr_text_content = None, fr_analysis = None, fr_frame_number = None\<rparr>"

definition frame_no_evidence :: frame_data where
  "frame_no_evidence =
     \<lparr>fr_timestamp = Some 2, fr_timestamp_formatted = Some ''00:02'',
      detected_actions = Some [], fr_ui_elements = None,
      fr_text_content = None, fr_analysis = None, fr_frame_number = Some 1\<rparr>"

text \<open>
  \<open>step_icons\<close> and \<open>rounded_scores\<close> are a step and the doubles that the scorer returns
  for two phrases against it: the exact score of both is 3/10 (lemma
  \<open>exact_scores_tie\<close>), the scorer returns
  \<open>0.5 * 0.6 = 0.3\<close> for the first and \<open>0.75 * 0.4 = 0.30000000000000004\<close> for the
  second, one unit in the last place more.
\<close>

definition step_icons :: planned_step where
  "step_icons = \<lparr>next_step_summary = Some ''click button icon menu'', next_step = None\<rparr>"

definition rounded_scores :: "string \<Rightarrow> string \<Rightarrow> real" where
  "rounded_scores planned observed =
     (if planned = ''click button icon menu'' \<and> observed = ''click open''
      then 5404319552844595 / 18014398509481984
      else if planned = ''click button icon menu'' \<and> observed = ''button icon menu link''
      then 5404319552844596 / 18014398509481984
      else semantic_match planned observed)"

section \<open>Properties of the scorer\<close>

lemma set_match_nonneg: "0 \<le> set_match a b"
  by (simp add: set_match_def)

lemma set_match_le_one: "set_match a b \<le> 1"
proof -
  have "card (set a \<inter> set b) \<le> card (set a \<union> set b)"
    by (rule card_mono) auto
  then have "real (card (set a \<inter> set b)) \<le> real (max (card (set a \<union> set b)) 1)"
    by simp
  then show ?thesis
    by (simp add: set_match_def divide_le_eq_1)
qed

lemma set_match_commute: "set_match a b = set_match b a"
  by (simp add: set_match_def Int_commute Un_commute)

lemma semantic_match_unfold:
  "semantic_match x y =
     set_match (filter (\<lambda>word. sublist word (lower x)) action_words)
               (filter (\<lambda>word. sublist word (lower y)) action_words) * (6 / 10)
     + set_match (extract_objects x) (extract_objects y) * (4 / 10)"
  by (simp add: semantic_match_def Let_def)

lemma semantic_match_bounds: "0 \<le> semantic_match x y" "semantic_match x y \<le> 1"
proof -
  let ?a = "set_match (filter (\<lambda>word. sublist word (lower x)) action_words)
                      (filter (\<lambda>word. sublist word (lower y)) action_words)"
  let ?b = "set_match (extract_objects x) (extract_objects y)"
  have "0 \<le> ?a" "?a \<le> 1" "0 \<le> ?b" "?b \<le> 1"
    by (rule set_match_nonneg set_match_le_one)+
  then show "0 \<le> semantic_match x y" "semantic_match x y \<le> 1"
    unfolding semantic_match_unfold by simp_all
qed

lemma score_click_click: "semantic_match ''click'' ''click'' = 3 / 5"
  by code_simp

lemma score_click_click_open: "semantic_match ''click'' ''click open'' = 3 / 10"
  by code_simp

lemma score_click_wait: "semantic_match ''click'' ''wait'' = 0"
  by code_simp

lemma exact_scores_tie:
  "semantic_match ''click button icon menu'' ''click open'' = 3 / 10
   \<and> semantic_match ''click button icon menu'' ''button icon menu link'' = 3 / 10"
  by code_simp

lemma score_clicked_click: "semantic_match ''clicked'' ''click'' = 3 / 5"
  by code_simp

lemma spec_score_clicked_click: "spec_score ''clicked'' ''click'' = 0"
  by code_simp

lemma spec_tokens_clicked: "spec_action_tokens ''clicked'' = {}"
  by code_simp

lemma action_words_clicked:
  "filter (\<lambda>word. sublist word (lower ''clicked'')) action_words = [''click'']"
  by code_simp

lemma whole_tokens_click:
  "\<forall>w \<in> set action_words. sublist w (lower ''click'') \<longrightarrow> w \<in> set (split (lower ''click''))"
  by code_simp

text \<open>
  Claim C6. The similarity scorer is total and its score lies in the interval from 0 to 1:
  \<open>semantic_match\<close> is a function defined on every pair of strings (the two regular
  expression scans terminate on every string), and its value is at least 0 and at most 1,
  for the empty string as for any other.
\<close>

theorem semantic_match_range:
  "0 \<le> semantic_match x y \<and> semantic_match x y \<le> 1"
  using semantic_match_bounds [of x y] by simp

theorem semantic_match_range_witness:
  "0 \<le> semantic_match '''' '''' \<and> semantic_match '''' '''' \<le> 1"
  using semantic_match_range [of "''''" "''''"] .

text \<open>
  Claim C9. The similarity scorer is symmetric: exchanging the planned and the observed
  text does not change the score.
\<close>

theorem semantic_match_symmetric: "semantic_match x y = semantic_match y x"
  unfolding semantic_match_unfold
  by (subst set_match_commute [of "extract_objects x"],
      subst set_match_commute [of "filter (\<lambda>word. sublist word (lower x)) action_words"])
     (rule refl)

lemma split_sublist: "t \<in> set (split s) \<Longrightarrow> sublist t s"
proof (induction s rule: split.induct)
  case 1
  then show ?case by simp
next
  case (2 c cs)
  show ?case
  proof (cases "is_space c")
    case True
    with 2 have "sublist t cs" by simp
    then show ?thesis by (simp add: sublist_Cons_right)
  next
    case False
    with "2.prems" consider "t = c # takeWhile (\<lambda>d. \<not> is_space d) cs"
      | "t \<in> set (split (dropWhile (\<lambda>d. \<not> is_space d) cs))" by auto
    then show ?thesis
    proof cases
      case 1
      have "prefix (c # takeWhile (\<lambda>d. \<not> is_space d) cs) (c # cs)"
        by (simp add: takeWhile_is_prefix)
      then show ?thesis using 1 by (simp add: sublist_Cons_right)
    next
      case 2
      then have "sublist t (dropWhile (\<lambda>d. \<not> is_space d) cs)"
        using "2.IH"(2) False by simp
      moreover have "sublist (dropWhile (\<lambda>d. \<not> is_space d) cs) cs"
        by (rule suffix_imp_sublist) (rule suffix_dropWhile)
      ultimately have "sublist t cs" by (rule sublist_order.order_trans)
      then show ?thesis by (simp add: sublist_Cons_right)
    qed
  qed
qed

lemma set_match_overlap: "set_match a b = overlap (set a) (set b)"
  by (simp add: set_match_def overlap_def)

lemma action_set_filter:
  "set (filter (\<lambda>word. sublist word s) action_words) = {w \<in> set action_words. sublist w s}"
  by auto

lemma spec_tokens_subset:
  "spec_action_tokens text \<subseteq> {w \<in> set action_words. sublist w (lower text)}"
  by (auto simp: spec_action_tokens_def dest: split_sublist)

lemma whole_tokens_eq:
  assumes "\<forall>w \<in> set action_words. sublist w (lower text) \<longrightarrow> w \<in> set (split (lower text))"
  shows "spec_action_tokens text = {w \<in> set action_words. sublist w (lower text)}"
  using assms spec_tokens_subset [of "text"] by (auto simp: spec_action_tokens_def)

lemma semantic_match_overlap:
  "semantic_match planned observed =
     6 / 10 * overlap {w \<in> set action_words. sublist w (lower planned)}
                      {w \<in> set action_words. sublist w (lower observed)}
     + 4 / 10 * overlap (set (extract_objects planned)) (set (extract_objects observed))"
  by (simp add: semantic_match_unfold set_match_overlap action_set_filter)

text \<open>
  Claim C1, as stated: the action tokens of a string are its white-space tokens that belong
  to the vocabulary. The scorer tests \<open>word in planned_lower\<close> on the whole lower-cased
  string, which is substring containment: \<open>clicked\<close> has no action token, yet the scorer
  finds \<open>click\<close> in it, and the score of \<open>clicked\<close> against \<open>click\<close> is 0.6 where the
  claimed formula gives 0.
\<close>

theorem whole_token_score_counterexample:
  "spec_action_tokens ''clicked'' = {}
   \<and> filter (\<lambda>word. sublist word (lower ''clicked'')) action_words = [''click'']
   \<and> semantic_match ''clicked'' ''click'' = 3 / 5
   \<and> spec_score ''clicked'' ''click'' = 0"
  by (simp add: score_clicked_click spec_score_clicked_click spec_tokens_clicked
      action_words_clicked)

text \<open>
  Claim C1, amended. For every pair of strings the score is 0.6 times the overlap of the two
  action-word sets plus 0.4 times the overlap of the two object-token sets, where the action
  words of a string are the words of the vocabulary that occur as substrings of the
  lower-cased string, and \<open>overlap A B\<close> is \<open>|A \<inter> B| / max(|A \<union> B|, 1)\<close>.
  Every white-space token that belongs to the vocabulary is such an action word, and where
  every vocabulary word contained in either string is also one of its tokens the score is
  the one the claim states.
\<close>

theorem semantic_match_substring_formula:
  "semantic_match planned observed =
     6 / 10 * overlap {w \<in> set action_words. sublist w (lower planned)}
                      {w \<in> set action_words. sublist w (lower observed)}
     + 4 / 10 * overlap (set (extract_objects planned)) (set (extract_objects observed))
   \<and> spec_action_tokens planned \<subseteq> {w \<in> set action_words. sublist w (lower planned)}
   \<and> ((\<forall>w \<in> set action_words.
           sublist w (lower planned) \<longrightarrow> w \<in> set (split (lower planned)))
        \<and> (\<forall>w \<in> set action_words.
           sublist w (lower observed) \<longrightarrow> w \<in> set (split (lower observed)))
        \<longrightarrow> semantic_match planned observed = spec_score planned observed)"
proof (intro conjI impI)
  show "semantic_match planned observed =
     6 / 10 * overlap {w \<in> set action_words. sublist w (lower planned)}
                      {w \<in> set action_words. sublist w (lower observed)}
     + 4 / 10 * overlap (set (extract_objects planned)) (set (extract_objects observed))"
    by (rule semantic_match_overlap)
  show "spec_action_tokens planned \<subseteq> {w \<in> set action_words. sublist w (lower planned)}"
    by (rule spec_tokens_subset)
  assume "(\<forall>w \<in> set action_words.
           sublist w (lower planned) \<longrightarrow> w \<in> set (split (lower planned)))
        \<and> (\<forall>w \<in> set action_words.
           sublist w (lower observed) \<longrightarrow> w \<in> set (split (lower observed)))"
  then show "semantic_match planned observed = spec_score planned observed"
    by (simp add: semantic_match_overlap spec_score_def whole_tokens_eq)
qed

theorem semantic_match_substring_formula_witness:
  "semantic_match ''click'' ''click'' = spec_score ''click'' ''click''
   \<and> spec_score ''click'' ''click'' = 3 / 5"
proof -
  have "semantic_match ''click'' ''click'' = spec_score ''click'' ''click''"
    using whole_tokens_click semantic_match_substring_formula [of "''click''" "''click''"]
    by blast
  then show ?thesis by (simp add: score_click_click)
qed

section \<open>Properties of the step matcher\<close>

lemma foldl_invariant:
  assumes "P s" and "\<And>s x. P s \<Longrightarrow> P (f s x)"
  shows "P (foldl f s xs)"
  using assms(1) by (induction xs arbitrary: s) (simp_all add: assms(2))

lemma check_action_consistent:
  "best_consistent st \<Longrightarrow> best_consistent (check_action p th item st a)"
  using semantic_match_bounds [of p a]
  by (auto simp: best_consistent_def check_action_def Let_def)

lemma check_element_consistent:
  "best_consistent st \<Longrightarrow> best_consistent (check_element p item st e)"
  using semantic_match_bounds [of p e]
  by (auto simp: best_consistent_def check_element_def Let_def)

lemma check_item_consistent:
  assumes "best_consistent st"
  shows "best_consistent (check_item p th st item)"
proof -
  have "best_consistent (foldl (check_action p th item) st (get_or [] (actions item)))"
    using assms check_action_consistent
    by (rule foldl_invariant [where P = best_consistent])
  then show ?thesis
    unfolding check_item_def using check_element_consistent
    by (rule foldl_invariant [where P = best_consistent])
qed

lemma scan_timeline_consistent: "best_consistent (scan_timeline p th timeline)"
  unfolding scan_timeline_def
proof (rule foldl_invariant [where P = best_consistent])
  show "best_consistent \<lparr>cur_best_match = None, cur_best_score = 0, cur_matches = []\<rparr>"
    by (simp add: best_consistent_def)
qed (rule check_item_consistent)

lemmas matcher_eval =
  match_step_with_timeline_def scan_timeline_def check_item_def check_action_def
  check_element_def candidate_def get_or_def planned_action_of_def Let_def
  step_click_def item_at_def

text \<open>
  Claim C10. The result of the step matcher carries a best candidate (\<open>best_match\<close> is
  not \<open>None\<close>) if and only if its best score is greater than 0; a result with best score
  0 carries no best candidate.
\<close>

theorem best_match_iff_positive_score:
  "best_match (match_step_with_timeline step timeline threshold) \<noteq> None
     \<longleftrightarrow> 0 < best_score (match_step_with_timeline step timeline threshold)"
  using scan_timeline_consistent [of "planned_action_of step" threshold timeline]
  by (auto simp: match_step_with_timeline_def Let_def best_consistent_def)

theorem best_match_iff_positive_score_witness:
  "best_match (match_step_with_timeline step_click [item_at 5 ''00:05'' [''click''] []] (1 / 2))
     \<noteq> None
   \<and> 0 < best_score
       (match_step_with_timeline step_click [item_at 5 ''00:05'' [''click''] []] (1 / 2))"
proof -
  have "0 < best_score
       (match_step_with_timeline step_click [item_at 5 ''00:05'' [''click''] []] (1 / 2))"
    by (simp add: matcher_eval score_click_click)
  then show ?thesis
    using best_match_iff_positive_score
      [of step_click "[item_at 5 ''00:05'' [''click''] []]" "1 / 2"]
    by simp
qed

lemma match_result_fields:
  "is_matched (match_step_with_timeline step timeline threshold)
     = (threshold \<le> best_score (match_step_with_timeline step timeline threshold))"
  "result (match_step_with_timeline step timeline threshold)
     = (if threshold \<le> best_score (match_step_with_timeline step timeline threshold)
        then ''observed'' else ''deviation'')"
  by (simp_all add: match_step_with_timeline_def Let_def)

lemma best_score_bounds:
  "0 \<le> best_score (match_step_with_timeline step timeline threshold)"
  "best_score (match_step_with_timeline step timeline threshold) \<le> 1"
  using scan_timeline_consistent [of "planned_action_of step" threshold timeline]
  by (simp_all add: match_step_with_timeline_def Let_def best_consistent_def)

lemma categorize_deviation_cases:
  assumes "\<not> is_matched r" and "0 \<le> best_score r" and "best_score r < 1 / 2"
  shows "(categorize_deviation r = ''skipped'' \<longleftrightarrow> best_score r = 0)
       \<and> (categorize_deviation r = ''not_visible'' \<longleftrightarrow> 0 < best_score r \<and> best_score r < 3 / 10)
       \<and> (categorize_deviation r = ''altered'' \<longleftrightarrow> 3 / 10 \<le> best_score r \<and> best_score r < 1 / 2)"
  using assms by (auto simp: categorize_deviation_def)

text \<open>
  Claim C2. For every result that the step matcher returns under the default threshold
  0.5 and whose verdict is \<open>deviation\<close>, the category is \<open>skipped\<close> exactly when
  the best score is 0, \<open>not_visible\<close> exactly when it lies strictly between 0 and 0.3,
  and \<open>altered\<close> exactly when it is at least 0.3 (and below 0.5). So a best score of
  exactly 0.3 gives \<open>altered\<close>, and a best score of exactly 0 gives \<open>skipped\<close>, not
  \<open>not_visible\<close>. The lower band boundary 0.3 is the constant of \<open>categorize_deviation\<close>.
\<close>

theorem categorize_deviation_bands:
  assumes "r = match_step_with_timeline step timeline (1 / 2)"
    and "result r = ''deviation''"
  shows "(categorize_deviation r = ''skipped'' \<longleftrightarrow> best_score r = 0)
       \<and> (categorize_deviation r = ''not_visible'' \<longleftrightarrow> 0 < best_score r \<and> best_score r < 3 / 10)
       \<and> (categorize_deviation r = ''altered'' \<longleftrightarrow> 3 / 10 \<le> best_score r \<and> best_score r < 1 / 2)"
proof -
  have low: "best_score r < 1 / 2"
    using assms match_result_fields(2) [of step timeline "1 / 2"]
    by (auto split: if_splits)
  then have "\<not> is_matched r"
    using assms(1) match_result_fields(1) [of step timeline "1 / 2"] by simp
  moreover have "0 \<le> best_score r"
    using assms(1) best_score_bounds(1) by simp
  ultimately show ?thesis
    using low by (rule categorize_deviation_cases)
qed

theorem categorize_deviation_bands_witness:
  "result (match_step_with_timeline step_click [item_at 5 ''00:05'' [''click open''] []] (1 / 2))
     = ''deviation''
   \<and> best_score (match_step_with_timeline step_click [item_at 5 ''00:05'' [''click open''] []] (1 / 2))
     = 3 / 10
   \<and> categorize_deviation
       (match_step_with_timeline step_click [item_at 5 ''00:05'' [''click open''] []] (1 / 2))
     = ''altered''"
proof -
  let ?r = "match_step_with_timeline step_click [item_at 5 ''00:05'' [''click open''] []] (1 / 2)"
  have dev: "result ?r = ''deviation''"
    by (simp add: matcher_eval score_click_click_open)
  have score: "best_score ?r = 3 / 10"
    by (simp add: matcher_eval score_click_click_open)
  from categorize_deviation_bands [OF refl dev] score dev show ?thesis
    by simp
qed

lemma foldl_snoc_map: "foldl (\<lambda>acc x. acc @ [f x]) acc xs = acc @ map f xs"
  by (induction xs arbitrary: acc) simp_all

lemma match_all_steps_map:
  "match_all_steps steps timeline threshold
     = map (\<lambda>step. match_step_with_timeline step timeline threshold) steps"
  by (simp add: match_all_steps_def foldl_snoc_map)

lemma match_step_empty_timeline:
  "match_step_with_timeline step [] threshold =
     \<lparr>res_planned_step = step, planned_action = planned_action_of step, best_match = None,
      best_score = 0, all_matches = [], is_matched = (threshold \<le> 0),
      result = (if threshold \<le> 0 then ''observed'' else ''deviation'')\<rparr>"
  by (simp add: match_step_with_timeline_def scan_timeline_def Let_def)

text \<open>
  Claim C5. Matching any list of planned steps against the empty timeline returns, without
  an error, one result per step, and every result has verdict \<open>deviation\<close>, best score
  0 and category \<open>skipped\<close>. The threshold is positive, as it is by default (0.5) and
  in every configuration with \<open>0 \<le> lowBand < threshold\<close>.
\<close>

theorem empty_timeline_all_skipped:
  assumes "0 < threshold"
  shows "\<exists>results. match_all_steps_outcome steps [] threshold = Inr results
           \<and> length results = length steps
           \<and> (\<forall>r \<in> set results. result r = ''deviation'' \<and> best_score r = 0
                  \<and> categorize_deviation r = ''skipped'')"
  using assms
  by (auto simp: match_all_steps_outcome_def match_all_steps_map match_step_empty_timeline
      categorize_deviation_def)

theorem empty_timeline_all_skipped_witness:
  "(0 :: real) < 1 / 2
   \<and> (\<exists>results. match_all_steps_outcome [step_click] [] (1 / 2) = Inr results
           \<and> length results = length [step_click]
           \<and> (\<forall>r \<in> set results. result r = ''deviation'' \<and> best_score r = 0
                  \<and> categorize_deviation r = ''skipped''))"
proof -
  have pos: "(0 :: real) < 1 / 2" by simp
  from pos empty_timeline_all_skipped [OF pos, of "[step_click]"] show ?thesis
    by (rule conjI)
qed

text \<open>
  Claim C7, as stated: a threshold outside the interval from 0 to 1 makes the step matcher
  fail with a \<open>ConfigurationError\<close>. The matcher does not inspect the threshold: with
  threshold 2 the call returns a result.
\<close>

theorem threshold_out_of_range_counterexample:
  "\<not> (0 \<le> (2 :: real) \<and> (2 :: real) \<le> 1)
   \<and> match_step_with_timeline_outcome step_click [] 2 =
       Inr \<lparr>res_planned_step = step_click, planned_action = ''click'', best_match = None,
            best_score = 0, all_matches = [], is_matched = False, result = ''deviation''\<rparr>
   \<and> match_step_with_timeline_outcome step_click [] 2 \<noteq> Inl ConfigurationError"
  by (simp add: match_step_with_timeline_outcome_def match_step_empty_timeline
      planned_action_of_def get_or_def step_click_def)

text \<open>
  Claim C7, amended. For every threshold, inside or outside the interval from 0 to 1, the
  step matcher and the batch matcher return their results and raise no
  \<open>ConfigurationError\<close>. A threshold above 1 makes every step a \<open>deviation\<close>, a
  threshold below 0 makes every step \<open>observed\<close>.
\<close>

theorem threshold_never_rejected:
  "match_step_with_timeline_outcome step timeline threshold
     = Inr (match_step_with_timeline step timeline threshold)
   \<and> match_all_steps_outcome steps timeline threshold
     = Inr (map (\<lambda>s. match_step_with_timeline s timeline threshold) steps)
   \<and> (1 < threshold \<longrightarrow>
        result (match_step_with_timeline step timeline threshold) = ''deviation'')
   \<and> (threshold < 0 \<longrightarrow>
        result (match_step_with_timeline step timeline threshold) = ''observed'')"
  using best_score_bounds [of step timeline threshold]
  by (auto simp: match_step_with_timeline_outcome_def match_all_steps_outcome_def
      match_all_steps_map match_result_fields(2))

theorem threshold_never_rejected_witness:
  "(1 :: real) < 2
   \<and> match_step_with_timeline_outcome step_click [] 2
       = Inr (match_step_with_timeline step_click [] 2)
   \<and> result (match_step_with_timeline step_click [] 2) = ''deviation''
   \<and> (- 1 :: real) < 0
   \<and> result (match_step_with_timeline step_click [] (- 1)) = ''observed''"
  using threshold_never_rejected [of step_click "[]" 2 "[]"]
    threshold_never_rejected [of step_click "[]" "- 1" "[]"]
  by simp

lemma check_action_with_exact: "check_action_with semantic_match = check_action"
  by (intro ext) (simp add: check_action_with_def check_action_def)

lemma check_element_with_exact: "check_element_with semantic_match = check_element"
  by (intro ext) (simp add: check_element_with_def check_element_def)

lemma check_item_with_exact: "check_item_with semantic_match = check_item"
  by (intro ext)
    (simp add: check_item_with_def check_item_def check_action_with_exact
      check_element_with_exact)

lemma match_step_with_exact:
  "match_step_with semantic_match step timeline threshold
     = match_step_with_timeline step timeline threshold"
  by (simp add: match_step_with_def match_step_with_timeline_def scan_timeline_with_def
      scan_timeline_def check_item_with_exact)

lemma best_of_check_action:
  "best_of (check_action_with score p th item st a) = best_step (score p) (best_of st) (item, a)"
  by (simp add: best_of_def best_step_def check_action_with_def Let_def)

lemma best_of_check_element:
  "best_of (check_element_with score p item st e) = best_step (score p) (best_of st) (item, e)"
  by (simp add: best_of_def best_step_def check_element_with_def Let_def)

lemma best_of_actions:
  "best_of (foldl (check_action_with score p th item) st as)
     = foldl (best_step (score p)) (best_of st) (map (Pair item) as)"
  by (induction as arbitrary: st) (simp_all add: best_of_check_action)

lemma best_of_elements:
  "best_of (foldl (check_element_with score p item) st es)
     = foldl (best_step (score p)) (best_of st) (map (Pair item) es)"
  by (induction es arbitrary: st) (simp_all add: best_of_check_element)

lemma best_of_check_item:
  "best_of (check_item_with score p th st item)
     = foldl (best_step (score p)) (best_of st) (map (Pair item) (phrases item))"
  by (simp add: check_item_with_def phrases_def best_of_elements best_of_actions)

lemma best_of_timeline:
  "best_of (foldl (check_item_with score p th) st timeline)
     = foldl (best_step (score p)) (best_of st) (scanned_pairs timeline)"
  by (induction timeline arbitrary: st) (simp_all add: scanned_pairs_def best_of_check_item)

lemma best_step_keeps:
  "\<forall>q \<in> set ps. f (snd q) \<le> snd b \<Longrightarrow> foldl (best_step f) b ps = b"
  by (induction ps arbitrary: b) (simp_all add: best_step_def)

lemma best_step_first_max:
  assumes "i < length ps"
    and "\<forall>q \<in> set ps. f (snd q) \<le> f (snd (ps ! i))"
    and "\<forall>q \<in> set (take i ps). f (snd q) < f (snd (ps ! i))"
    and "snd b < f (snd (ps ! i))"
  shows "foldl (best_step f) b ps =
           (Some (candidate (fst (ps ! i)) (snd (ps ! i)) (f (snd (ps ! i)))), f (snd (ps ! i)))"
  using assms
proof (induction ps arbitrary: i b)
  case Nil
  then show ?case by simp
next
  case (Cons q ps)
  show ?case
  proof (cases i)
    case 0
    have step: "best_step f b q = (Some (candidate (fst q) (snd q) (f (snd q))), f (snd q))"
      using Cons.prems(4) 0 by (simp add: best_step_def)
    have "foldl (best_step f) (best_step f b q) ps = best_step f b q"
      using Cons.prems(2) 0 by (intro best_step_keeps) (simp add: step)
    then show ?thesis using 0 by (simp add: step)
  next
    case (Suc k)
    have lt: "f (snd q) < f (snd (ps ! k))"
      using Cons.prems(3) Suc by simp
    have "snd (best_step f b q) < f (snd (ps ! k))"
      using lt Cons.prems(4) Suc by (simp add: best_step_def)
    moreover have "k < length ps" using Cons.prems(1) Suc by simp
    moreover have "\<forall>r \<in> set ps. f (snd r) \<le> f (snd (ps ! k))"
      using Cons.prems(2) Suc by simp
    moreover have "\<forall>r \<in> set (take k ps). f (snd r) < f (snd (ps ! k))"
      using Cons.prems(3) Suc by simp
    ultimately have "foldl (best_step f) (best_step f b q) ps =
           (Some (candidate (fst (ps ! k)) (snd (ps ! k)) (f (snd (ps ! k)))), f (snd (ps ! k)))"
      by (intro Cons.IH)
    then show ?thesis using Suc by simp
  qed
qed

lemma best_of_match_step:
  "(best_match (match_step_with score step timeline threshold),
    best_score (match_step_with score step timeline threshold))
     = foldl (best_step (score (planned_action_of step))) (None, 0) (scanned_pairs timeline)"
  using best_of_timeline [of score "planned_action_of step" threshold
      "\<lparr>cur_best_match = None, cur_best_score = 0, cur_matches = []\<rparr>" timeline]
  by (simp add: match_step_with_def scan_timeline_with_def Let_def best_of_def)

lemma fst_scanned_pairs: "q \<in> set (scanned_pairs timeline) \<Longrightarrow> fst q \<in> set timeline"
  by (auto simp: scanned_pairs_def)

lemma sorted_const: "sorted (map (\<lambda>x. c) xs)"
  by (induction xs) simp_all

lemma sorted_scanned_pairs:
  "sorted (map event_time timeline)
     \<Longrightarrow> sorted (map (\<lambda>q. event_time (fst q)) (scanned_pairs timeline))"
proof (induction timeline)
  case Nil
  then show ?case by (simp add: scanned_pairs_def)
next
  case (Cons item timeline)
  have split: "scanned_pairs (item # timeline)
      = map (Pair item) (phrases item) @ scanned_pairs timeline"
    by (simp add: scanned_pairs_def)
  have same: "sorted (map ((\<lambda>q. event_time (fst q)) \<circ> Pair item) (phrases item))"
    by (simp add: comp_def sorted_const)
  have later: "\<forall>q \<in> set (scanned_pairs timeline). event_time item \<le> event_time (fst q)"
    using Cons.prems by (auto dest: fst_scanned_pairs)
  have "sorted (map (\<lambda>q. event_time (fst q)) (scanned_pairs timeline))"
    using Cons by simp
  then show ?case
    using later same by (simp add: split sorted_append)
qed

lemma first_of_sorted:
  assumes "sorted (map g ps)" and "i < length ps" and "q \<in> set (drop i ps)"
  shows "g (ps ! i) \<le> g q"
proof -
  have "drop i ps = ps ! i # drop (Suc i) ps"
    using assms(2) by (simp add: Cons_nth_drop_Suc)
  moreover have "sorted (map g (drop i ps))"
    using assms(1) by (simp add: drop_map [symmetric])
  ultimately show ?thesis using assms(3) by auto
qed

text \<open>
  Claim C3, as stated: when several scanned pairs attain the maximal score, the best
  candidate is the first of them. Two entries at 5 s and 12 s whose only phrase scores 0
  against the step both attain the maximal score 0 (exactly so as doubles too), yet no
  best candidate is recorded: \<open>best_score\<close> starts at 0 and a pair replaces the best
  match only with a strictly greater score.
\<close>

theorem tie_at_zero_counterexample:
  "scanned_pairs [item_at 5 ''00:05'' [''wait''] [], item_at 12 ''00:12'' [''wait''] []]
     = [(item_at 5 ''00:05'' [''wait''] [], ''wait''), (item_at 12 ''00:12'' [''wait''] [], ''wait'')]
   \<and> pair_score semantic_match step_click (item_at 5 ''00:05'' [''wait''] [], ''wait'') = 0
   \<and> pair_score semantic_match step_click (item_at 12 ''00:12'' [''wait''] [], ''wait'') = 0
   \<and> best_score (match_step_with_timeline step_click
         [item_at 5 ''00:05'' [''wait''] [], item_at 12 ''00:12'' [''wait''] []] (1 / 2)) = 0
   \<and> best_match (match_step_with_timeline step_click
         [item_at 5 ''00:05'' [''wait''] [], item_at 12 ''00:12'' [''wait''] []] (1 / 2))
       = None
   \<and> best_match (match_step_with_timeline step_click
         [item_at 5 ''00:05'' [''wait''] [], item_at 12 ''00:12'' [''wait''] []] (1 / 2))
       \<noteq> Some (pair_candidate semantic_match step_click
                 (item_at 5 ''00:05'' [''wait''] [], ''wait''))"
  by (simp add: scanned_pairs_def phrases_def pair_score_def matcher_eval score_click_wait)

text \<open>
  Claim C3, amended. The scores are the values that the scorer returns, \<open>score\<close>. When the
  maximal score over the scanned pairs is greater than 0, the best candidate of the step
  matcher is the pair that attains it first in scan order (timeline order, and within an
  entry actions, user-interface elements, text snippets): pair \<open>i\<close> scores at least as
  much as every pair and strictly more than every pair before it. A later pair with an
  equal score never replaces it, and on a timeline ordered by time stamp no pair with
  that score has an earlier time stamp: the earliest time stamp wins. When no pair scores
  more than 0, no best candidate is recorded.
\<close>

theorem first_best_pair_wins:
  "(i < length (scanned_pairs timeline)
    \<and> (\<forall>q \<in> set (scanned_pairs timeline).
          pair_score score step q \<le> pair_score score step (scanned_pairs timeline ! i))
    \<and> (\<forall>q \<in> set (take i (scanned_pairs timeline)).
          pair_score score step q < pair_score score step (scanned_pairs timeline ! i))
    \<and> 0 < pair_score score step (scanned_pairs timeline ! i)
    \<longrightarrow> best_match (match_step_with score step timeline threshold)
          = Some (pair_candidate score step (scanned_pairs timeline ! i))
        \<and> best_score (match_step_with score step timeline threshold)
          = pair_score score step (scanned_pairs timeline ! i)
        \<and> (sorted (map event_time timeline) \<longrightarrow>
             (\<forall>q \<in> set (scanned_pairs timeline).
                pair_score score step q = pair_score score step (scanned_pairs timeline ! i)
                \<longrightarrow> cand_timestamp (pair_candidate score step (scanned_pairs timeline ! i))
                      \<le> event_time (fst q))))
   \<and> ((\<forall>q \<in> set (scanned_pairs timeline). pair_score score step q \<le> 0)
        \<longrightarrow> best_match (match_step_with score step timeline threshold) = None)"
proof (intro conjI impI)
  let ?ps = "scanned_pairs timeline"
  let ?f = "score (planned_action_of step)"
  {
    assume "\<forall>q \<in> set ?ps. pair_score score step q \<le> 0"
    then have "foldl (best_step ?f) (None, 0) ?ps = (None, 0)"
      by (intro best_step_keeps) (simp add: pair_score_def)
    then show "best_match (match_step_with score step timeline threshold) = None"
      using best_of_match_step [of score step timeline threshold] by simp
  }
  assume a: "i < length ?ps
    \<and> (\<forall>q \<in> set ?ps. pair_score score step q \<le> pair_score score step (?ps ! i))
    \<and> (\<forall>q \<in> set (take i ?ps). pair_score score step q < pair_score score step (?ps ! i))
    \<and> 0 < pair_score score step (?ps ! i)"
  have "foldl (best_step ?f) (None, 0) ?ps =
      (Some (pair_candidate score step (?ps ! i)), pair_score score step (?ps ! i))"
    unfolding pair_candidate_def pair_score_def
    using a by (intro best_step_first_max) (simp_all add: pair_score_def)
  then have both: "best_match (match_step_with score step timeline threshold)
        = Some (pair_candidate score step (?ps ! i))
      \<and> best_score (match_step_with score step timeline threshold)
        = pair_score score step (?ps ! i)"
    using best_of_match_step [of score step timeline threshold] by simp
  from both show "best_match (match_step_with score step timeline threshold)
        = Some (pair_candidate score step (?ps ! i))" ..
  from both show "best_score (match_step_with score step timeline threshold)
        = pair_score score step (?ps ! i)" ..
  assume ordered: "sorted (map event_time timeline)"
  show "\<forall>q \<in> set ?ps. pair_score score step q = pair_score score step (?ps ! i)
          \<longrightarrow> cand_timestamp (pair_candidate score step (?ps ! i)) \<le> event_time (fst q)"
  proof (intro ballI impI)
    fix q
    assume q: "q \<in> set ?ps" and eq: "pair_score score step q = pair_score score step (?ps ! i)"
    have "q \<notin> set (take i ?ps)" using a eq by auto
    moreover have "set ?ps = set (take i ?ps) \<union> set (drop i ?ps)"
      by (metis append_take_drop_id set_append)
    ultimately have "q \<in> set (drop i ?ps)" using q by auto
    then have "event_time (fst (?ps ! i)) \<le> event_time (fst q)"
      using first_of_sorted [of "\<lambda>q. event_time (fst q)" ?ps i q]
        sorted_scanned_pairs [OF ordered] a by simp
    then show "cand_timestamp (pair_candidate score step (?ps ! i)) \<le> event_time (fst q)"
      by (simp add: pair_candidate_def candidate_def event_time_def)
  qed
qed

theorem first_best_pair_wins_witness:
  "best_match (match_step_with semantic_match step_click
       [item_at 5 ''00:05'' [''click''] [], item_at 12 ''00:12'' [''click''] []] (1 / 2))
     = Some (candidate (item_at 5 ''00:05'' [''click''] []) ''click'' (3 / 5))
   \<and> pair_score semantic_match step_click (item_at 12 ''00:12'' [''click''] [], ''click'') = 3 / 5
   \<and> best_match (match_step_with rounded_scores step_icons
       [item_at 5 ''00:05'' [''click open''] [],
        item_at 12 ''00:12'' [''button icon menu link''] []] (1 / 2))
     = Some (candidate (item_at 12 ''00:12'' [''button icon menu link''] [])
          ''button icon menu link'' (5404319552844596 / 18014398509481984))
   \<and> best_match (match_step_with semantic_match step_click
       [item_at 5 ''00:05'' [''wait''] [], item_at 12 ''00:12'' [''wait''] []] (1 / 2))
     = None"
proof -
  let ?tl = "[item_at 5 ''00:05'' [''click''] [], item_at 12 ''00:12'' [''click''] []]"
  have ps: "scanned_pairs ?tl =
      [(item_at 5 ''00:05'' [''click''] [], ''click''), (item_at 12 ''00:12'' [''click''] [], ''click'')]"
    by (simp add: scanned_pairs_def phrases_def item_at_def get_or_def)
  have sc: "\<And>it. pair_score semantic_match step_click (it, ''click'') = 3 / 5"
    by (simp add: pair_score_def planned_action_of_def step_click_def get_or_def score_click_click)
  have tie: "best_match (match_step_with semantic_match step_click ?tl (1 / 2))
       = Some (pair_candidate semantic_match step_click (scanned_pairs ?tl ! 0))"
    using first_best_pair_wins [of 0 ?tl semantic_match step_click "1 / 2"]
    by (simp add: ps sc)
  let ?tr = "[item_at 5 ''00:05'' [''click open''] [],
        item_at 12 ''00:12'' [''button icon menu link''] []]"
  have pr: "scanned_pairs ?tr =
      [(item_at 5 ''00:05'' [''click open''] [], ''click open''),
       (item_at 12 ''00:12'' [''button icon menu link''] [], ''button icon menu link'')]"
    by (simp add: scanned_pairs_def phrases_def item_at_def get_or_def)
  have r1: "\<And>it. pair_score rounded_scores step_icons (it, ''click open'')
      = 5404319552844595 / 18014398509481984"
    by (simp add: pair_score_def planned_action_of_def step_icons_def get_or_def
        rounded_scores_def)
  have r2: "\<And>it. pair_score rounded_scores step_icons (it, ''button icon menu link'')
      = 5404319552844596 / 18014398509481984"
    by (simp add: pair_score_def planned_action_of_def step_icons_def get_or_def
        rounded_scores_def)
  have rounded: "best_match (match_step_with rounded_scores step_icons ?tr (1 / 2))
       = Some (pair_candidate rounded_scores step_icons (scanned_pairs ?tr ! 1))"
    using first_best_pair_wins [of 1 ?tr rounded_scores step_icons "1 / 2"]
    by (simp add: pr r1 r2)
  let ?tz = "[item_at 5 ''00:05'' [''wait''] [], item_at 12 ''00:12'' [''wait''] []]"
  have pz: "scanned_pairs ?tz =
      [(item_at 5 ''00:05'' [''wait''] [], ''wait''), (item_at 12 ''00:12'' [''wait''] [], ''wait'')]"
    by (simp add: scanned_pairs_def phrases_def item_at_def get_or_def)
  have sz: "\<And>it. pair_score semantic_match step_click (it, ''wait'') = 0"
    by (simp add: pair_score_def planned_action_of_def step_click_def get_or_def score_click_wait)
  have zero: "best_match (match_step_with semantic_match step_click ?tz (1 / 2)) = None"
    using first_best_pair_wins [of 0 ?tz semantic_match step_click "1 / 2"]
    by (simp add: pz sz)
  show ?thesis
    using tie rounded zero by (simp add: ps pr sc r2 pair_candidate_def)
qed

lemma matches_check_action:
  "cur_matches (check_action p th item st a) =
     cur_matches st @ (if th \<le> semantic_match p a then [candidate item a (semantic_match p a)] else [])"
  by (simp add: check_action_def Let_def)

lemma matches_check_element: "cur_matches (check_element p item st e) = cur_matches st"
  by (simp add: check_element_def Let_def)

lemma matches_actions:
  "cur_matches (foldl (check_action p th item) st as) =
     cur_matches st @ map (\<lambda>a. candidate item a (semantic_match p a))
                        (filter (\<lambda>a. th \<le> semantic_match p a) as)"
  by (induction as arbitrary: st) (simp_all add: matches_check_action)

lemma matches_elements: "cur_matches (foldl (check_element p item) st es) = cur_matches st"
  by (induction es arbitrary: st) (simp_all add: matches_check_element)

lemma matches_timeline:
  "cur_matches (foldl (check_item p th) st timeline) =
     cur_matches st @ concat (map (\<lambda>item. map (\<lambda>a. candidate item a (semantic_match p a))
        (filter (\<lambda>a. th \<le> semantic_match p a) (get_or [] (actions item)))) timeline)"
  by (induction timeline arbitrary: st)
    (simp_all add: check_item_def matches_elements matches_actions)

lemma all_matches_actions_only:
  "all_matches (match_step_with_timeline step timeline threshold) =
     concat (map (\<lambda>item. map (\<lambda>a. candidate item a (semantic_match (planned_action_of step) a))
        (filter (\<lambda>a. threshold \<le> semantic_match (planned_action_of step) a)
           (get_or [] (actions item)))) timeline)"
  by (simp add: match_step_with_timeline_def scan_timeline_def Let_def matches_timeline)

text \<open>
  Claim C4 says that \<open>all_matches\<close> holds every pair whose score reaches the threshold,
  from all three phrase lists. The loop over user-interface elements and text snippets
  updates the best match but does not append to \<open>matches\<close>, as \<open>all_matches_actions_only\<close>
  states. Here the step \<open>click\<close> meets an entry whose only phrase is the
  user-interface element \<open>click\<close>: the score 0.6 reaches the threshold 0.5, the step is
  matched on that element, and \<open>all_matches\<close> is empty.
\<close>

theorem all_matches_misses_ui_element:
  "semantic_match (planned_action_of step_click) ''click'' = 3 / 5
   \<and> is_matched (match_step_with_timeline step_click [item_at 5 ''00:05'' [] [''click'']] (1 / 2))
   \<and> best_match (match_step_with_timeline step_click [item_at 5 ''00:05'' [] [''click'']] (1 / 2))
       = Some (candidate (item_at 5 ''00:05'' [] [''click'']) ''click'' (3 / 5))
   \<and> all_matches (match_step_with_timeline step_click [item_at 5 ''00:05'' [] [''click'']] (1 / 2))
       = []"
  by (simp add: matcher_eval score_click_click)

section \<open>Properties of the timeline builder\<close>

lemma build_action_timeline_snoc:
  "foldl add_frame acc frames =
     acc @ map (\<lambda>fd.
           \<lparr>timestamp = Some (get_or 0 (fr_timestamp fd)),
            timestamp_formatted = Some (get_or ''00:00'' (fr_timestamp_formatted fd)),
            actions = Some (get_or [] (detected_actions fd)),
            ui_elements = Some (get_or [] (fr_ui_elements fd)),
            text_content = Some (get_or [] (fr_text_content fd)),
            description =
              Some (get_or [] (an_description (get_or \<lparr>an_description = None\<rparr> (fr_analysis fd)))),
            frame_number = Some (get_or 0 (fr_frame_number fd))\<rparr>)
        (filter (\<lambda>fd. get_or [] (detected_actions fd) \<noteq> []
                   \<or> get_or [] (fr_ui_elements fd) \<noteq> []
                   \<or> get_or [] (fr_text_content fd) \<noteq> []) frames)"
  by (induction frames arbitrary: acc) (simp_all add: add_frame_def Let_def)

text \<open>
  Claim C8, as stated: the timeline builder fails with an \<open>InputError\<close> when a frame
  record lacks a time stamp. The builder reads the time stamp with the default 0: a
  record without time stamp that carries an action yields an entry at time 0.
\<close>

theorem missing_timestamp_counterexample:
  "fr_timestamp frame_no_timestamp = None
   \<and> build_action_timeline_outcome [frame_no_timestamp] =
       Inr [\<lparr>timestamp = Some 0, timestamp_formatted = Some ''00:00'',
             actions = Some [''click button''], ui_elements = Some [],
             text_content = Some [], description = Some [], frame_number = Some 0\<rparr>]
   \<and> build_action_timeline_outcome [frame_no_timestamp] \<noteq> Inl InputError"
  by (simp add: build_action_timeline_outcome_def build_action_timeline_def add_frame_def
      Let_def get_or_def frame_no_timestamp_def)

text \<open>
  Claim C8, amended. The timeline builder never fails. It keeps the records that carry at
  least one action, user-interface element or text snippet, in their order; a missing
  time stamp becomes 0 (and a missing formatted time \<open>00:00\<close>), and every other missing
  field becomes the empty list or the empty string.
\<close>

theorem timeline_builder_defaults:
  "build_action_timeline_outcome frames =
     Inr (map (\<lambda>fd.
           \<lparr>timestamp = Some (get_or 0 (fr_timestamp fd)),
            timestamp_formatted = Some (get_or ''00:00'' (fr_timestamp_formatted fd)),
            actions = Some (get_or [] (detected_actions fd)),
            ui_elements = Some (get_or [] (fr_ui_elements fd)),
            text_content = Some (get_or [] (fr_text_content fd)),
            description =
              Some (get_or [] (an_description (get_or \<lparr>an_description = None\<rparr> (fr_analysis fd)))),
            frame_number = Some (get_or 0 (fr_frame_number fd))\<rparr>)
        (filter (\<lambda>fd. get_or [] (detected_actions fd) \<noteq> []
                   \<or> get_or [] (fr_ui_elements fd) \<noteq> []
                   \<or> get_or [] (fr_text_content fd) \<noteq> []) frames))"
  by (simp add: build_action_timeline_outcome_def build_action_timeline_def
      build_action_timeline_snoc)

theorem timeline_builder_defaults_witness:
  "build_action_timeline_outcome [frame_no_evidence, frame_no_timestamp] =
     Inr [\<lparr>timestamp = Some 0, timestamp_formatted = Some ''00:00'',
           actions = Some [''click button''], ui_elements = Some [],
           text_content = Some [], description = Some [], frame_number = Some 0\<rparr>]"
  using timeline_builder_defaults [of "[frame_no_evidence, frame_no_timestamp]"]
  by (simp add: get_or_def frame_no_timestamp_def frame_no_evidence_def)

end
